theory Spec2Isabelle
  imports Main "HOL-Library.Word" "HOL-Library.Multiset"
begin

unbundle bit_operations_syntax

section \<open>TabModel (src/lib/tabwidget/tabmodel.cpp)\<close>

text \<open>
  A shallow embedding of \<^verbatim>\<open>TabModel\<close>, the list model that mirrors the tabs of a
  browser window. C++ \<^verbatim>\<open>int\<close> values are \<open>int\<close>; the 32-bit width appears where the
  code serialises them (\<^verbatim>\<open>QDataStream\<close>). Pointers are options, \<open>None\<close> being
  \<^verbatim>\<open>nullptr\<close>. Undefined behaviour the code can reach (dereferencing a null pointer, an
  index outside a \<^verbatim>\<open>QVector\<close> where Qt asserts) is a value of type \<open>fault\<close>.
\<close>

subsection \<open>Pointers, faults, tab objects\<close>

type_synonym WebTab_ptr = "nat option"

datatype fault = NullDeref | OutOfRange | Dangling

record WebTab =
  title :: string
  icon :: string
  isPinned :: bool
  isRestored :: bool
  isCurrentTab :: bool
  isLoading :: bool
  isPlaying :: bool
  isMuted :: bool

text \<open>The \<^verbatim>\<open>WebTab\<close> objects alive at the moment, by address.\<close>

type_synonym heap = "nat \<rightharpoonup> WebTab"

subsection \<open>QVector\<close>

text \<open>
  The \<^verbatim>\<open>QVector\<close> members the model calls. \<^verbatim>\<open>value(i)\<close> checks its index and returns a
  default-constructed element (a null pointer here) outside the vector; \<^verbatim>\<open>insert\<close>,
  \<^verbatim>\<open>remove\<close> and \<^verbatim>\<open>takeAt\<close> assert theirs.
\<close>

definition QVector_value :: "'a option list \<Rightarrow> int \<Rightarrow> 'a option" where
  "QVector_value v i = (if 0 \<le> i \<and> i < int (length v) then v ! nat i else None)"

definition QVector_count :: "'a list \<Rightarrow> int" where
  "QVector_count v = int (length v)"

definition QVector_insert :: "'a list \<Rightarrow> int \<Rightarrow> 'a \<Rightarrow> fault + 'a list" where
  "QVector_insert v i x =
     (if 0 \<le> i \<and> i \<le> int (length v) then Inr (take (nat i) v @ x # drop (nat i) v)
      else Inl OutOfRange)"

definition QVector_remove :: "'a list \<Rightarrow> int \<Rightarrow> fault + 'a list" where
  "QVector_remove v i =
     (if 0 \<le> i \<and> i < int (length v) then Inr (take (nat i) v @ drop (Suc (nat i)) v)
      else Inl OutOfRange)"

definition QVector_takeAt :: "'a list \<Rightarrow> int \<Rightarrow> fault + ('a \<times> 'a list)" where
  "QVector_takeAt v i =
     (if 0 \<le> i \<and> i < int (length v) then Inr (v ! nat i, take (nat i) v @ drop (Suc (nat i)) v)
      else Inl OutOfRange)"

fun indexOf_from :: "'a list \<Rightarrow> 'a \<Rightarrow> int \<Rightarrow> int" where
  "indexOf_from [] x i = - 1"
| "indexOf_from (y # ys) x i = (if y = x then i else indexOf_from ys x (i + 1))"

definition QVector_indexOf :: "'a list \<Rightarrow> 'a \<Rightarrow> int" where
  "QVector_indexOf v x = indexOf_from v x 0"

subsection \<open>The window and its tab container\<close>

text \<open>
  Modelled from the spec: \<^verbatim>\<open>BrowserWindow\<close> and \<^verbatim>\<open>TabWidget\<close> are not in the source
  file. The spec gives the container the queries \<^verbatim>\<open>tabCount()\<close> and
  \<^verbatim>\<open>tabAt(index)\<close>, so the window is the ordered list of its tabs.
\<close>

record BrowserWindow =
  tabWidget :: "WebTab_ptr list"

definition tabCount :: "BrowserWindow \<Rightarrow> int" where
  "tabCount w = int (length (tabWidget w))"

text \<open>
  Modelled from the spec: \<^verbatim>\<open>m_window->weView(index)->webTab()\<close>. No view sits at an index
  outside the container, and asking the missing view for its tab dereferences null.
\<close>

definition weView_webTab :: "BrowserWindow \<Rightarrow> int \<Rightarrow> fault + WebTab_ptr" where
  "weView_webTab w index =
     (if 0 \<le> index \<and> index < tabCount w then Inr (tabWidget w ! nat index) else Inl NullDeref)"

text \<open>
  Modelled from the spec: \<^verbatim>\<open>WebTab::tabIndex()\<close>, the tab's current row in the container
  (\<open>-1\<close> when the container does not hold it).
\<close>

definition WebTab_tabIndex :: "BrowserWindow \<Rightarrow> WebTab_ptr \<Rightarrow> int" where
  "WebTab_tabIndex w t = QVector_indexOf (tabWidget w) t"

subsection \<open>Model indexes, roles, variants\<close>

text \<open>
  A \<^verbatim>\<open>QModelIndex\<close>: row, column and whether it carries a model pointer. The default
  constructed index has row and column \<open>-1\<close> and no model.
\<close>

record QModelIndex =
  row :: int
  column :: int
  has_model :: bool

definition isValid :: "QModelIndex \<Rightarrow> bool" where
  "isValid i = (0 \<le> row i \<and> 0 \<le> column i \<and> has_model i)"

definition QModelIndex_null :: QModelIndex where
  "QModelIndex_null = \<lparr>row = - 1, column = - 1, has_model = False\<rparr>"

text \<open>
  The \<^verbatim>\<open>int role\<close> of \<^verbatim>\<open>data\<close>. The case labels of its \<^verbatim>\<open>switch\<close> are the two Qt
  roles and the nine values of the enum in tabmodel.h; every other integer is \<open>OtherRole\<close>.
\<close>

datatype Role =
    DisplayRole | DecorationRole
  | WebTabRole | TitleRole | IconRole | PinnedRole | RestoredRole | CurrentTabRole
  | LoadingRole | AudioPlayingRole | AudioMutedRole
  | OtherRole int

datatype QVariant =
    Invalid | VWebTab WebTab_ptr | VString string | VIcon string | VBool bool

datatype DropAction = IgnoreAction | CopyAction | MoveAction | LinkAction

subsection \<open>The model's state\<close>

text \<open>
  What the model tells its observers, in the order of the calls: the arguments of
  \<^verbatim>\<open>beginInsertRows\<close>, \<^verbatim>\<open>beginRemoveRows\<close>, \<^verbatim>\<open>beginMoveRows\<close> (first, last,
  destination child; both parents are the root) and the matching \<^verbatim>\<open>end\<close> calls.
\<close>

datatype notification =
    BeginInsertRows int int | EndInsertRows
  | BeginRemoveRows int int | EndRemoveRows
  | BeginMoveRows int int int | EndMoveRows
  | BeginResetModel | EndResetModel

text \<open>
  \<open>m_window\<close> is the pointer to the window: \<open>None\<close> when null, else the window it points
  to in its present state. \<open>notified\<close> records the notifications made so far.
\<close>

record TabModel =
  m_window :: "BrowserWindow option"
  m_tabs :: "WebTab_ptr list"
  notified :: "notification list"

definition notify :: "notification \<Rightarrow> TabModel \<Rightarrow> TabModel" where
  "notify n s = s\<lparr>notified := notified s @ [n]\<rparr>"

subsection \<open>Queries\<close>

definition rowCount :: "TabModel \<Rightarrow> QModelIndex \<Rightarrow> int" where
  "rowCount s parent = (if isValid parent then 0 else QVector_count (m_tabs s))"

text \<open>
  \<^verbatim>\<open>QAbstractListModel::index(row)\<close>: an index of column 0 when the row exists, the null
  index otherwise.
\<close>

definition index :: "TabModel \<Rightarrow> int \<Rightarrow> QModelIndex" where
  "index s r =
     (if 0 \<le> r \<and> r < rowCount s QModelIndex_null
      then \<lparr>row = r, column = 0, has_model = True\<rparr> else QModelIndex_null)"

definition tabIndex :: "TabModel \<Rightarrow> WebTab_ptr \<Rightarrow> QModelIndex" where
  "tabIndex s t =
     (let idx = QVector_indexOf (m_tabs s) t
      in if idx < 0 then QModelIndex_null else index s idx)"

definition tab :: "TabModel \<Rightarrow> QModelIndex \<Rightarrow> WebTab_ptr" where
  "tab s i = QVector_value (m_tabs s) (row i)"

text \<open>A getter called through a tab pointer: the object must be alive.\<close>

definition deref :: "heap \<Rightarrow> nat \<Rightarrow> (WebTab \<Rightarrow> QVariant) \<Rightarrow> fault + QVariant" where
  "deref h a get = (case h a of None \<Rightarrow> Inl Dangling | Some obj \<Rightarrow> Inr (get obj))"

definition data :: "heap \<Rightarrow> TabModel \<Rightarrow> QModelIndex \<Rightarrow> Role \<Rightarrow> fault + QVariant" where
  "data h s i role =
     (if row i < 0 \<or> row i > QVector_count (m_tabs s) then Inr Invalid
      else case tab s i of
          None \<Rightarrow> Inr Invalid
        | Some a \<Rightarrow>
           (case role of
              WebTabRole \<Rightarrow> Inr (VWebTab (Some a))
            | TitleRole \<Rightarrow> deref h a (\<lambda>t. VString (title t))
            | DisplayRole \<Rightarrow> deref h a (\<lambda>t. VString (title t))
            | IconRole \<Rightarrow> deref h a (\<lambda>t. VIcon (icon t))
            | DecorationRole \<Rightarrow> deref h a (\<lambda>t. VIcon (icon t))
            | PinnedRole \<Rightarrow> deref h a (\<lambda>t. VBool (isPinned t))
            | RestoredRole \<Rightarrow> deref h a (\<lambda>t. VBool (isRestored t))
            | CurrentTabRole \<Rightarrow> deref h a (\<lambda>t. VBool (isCurrentTab t))
            | LoadingRole \<Rightarrow> deref h a (\<lambda>t. VBool (isLoading t))
            | AudioPlayingRole \<Rightarrow> deref h a (\<lambda>t. VBool (isPlaying t))
            | AudioMutedRole \<Rightarrow> deref h a (\<lambda>t. VBool (isMuted t))
            | OtherRole n \<Rightarrow> Inr Invalid))"

subsection \<open>Structural event handlers\<close>

text \<open>
  \<^verbatim>\<open>tabInserted\<close> reads the tab through \<open>m_window\<close> without testing the pointer. The
  subscriptions to the tab's change signals that follow the insertion do not touch the
  list and are not part of the state.
\<close>

definition tabInserted :: "int \<Rightarrow> TabModel \<Rightarrow> fault + TabModel" where
  "tabInserted idx s =
     (case m_window s of
        None \<Rightarrow> Inl NullDeref
      | Some w \<Rightarrow>
         (case weView_webTab w idx of
            Inl f \<Rightarrow> Inl f
          | Inr t \<Rightarrow>
             (let s1 = notify (BeginInsertRows idx idx) s
              in case QVector_insert (m_tabs s1) idx t of
                   Inl f \<Rightarrow> Inl f
                 | Inr v \<Rightarrow> Inr (notify EndInsertRows (s1\<lparr>m_tabs := v\<rparr>)))))"

definition tabRemoved :: "int \<Rightarrow> TabModel \<Rightarrow> fault + TabModel" where
  "tabRemoved idx s =
     (let s1 = notify (BeginRemoveRows idx idx) s
      in case QVector_remove (m_tabs s1) idx of
           Inl f \<Rightarrow> Inl f
         | Inr v \<Rightarrow> Inr (notify EndRemoveRows (s1\<lparr>m_tabs := v\<rparr>)))"

definition tabMoved :: "int \<Rightarrow> int \<Rightarrow> TabModel \<Rightarrow> fault + TabModel" where
  "tabMoved from to s =
     (let s1 = notify (BeginMoveRows from from (if to > from then to + 1 else to)) s
      in case QVector_takeAt (m_tabs s1) from of
           Inl f \<Rightarrow> Inl f
         | Inr (t, v) \<Rightarrow>
            (case QVector_insert v to t of
               Inl f \<Rightarrow> Inl f
             | Inr v' \<Rightarrow> Inr (notify EndMoveRows (s1\<lparr>m_tabs := v'\<rparr>))))"

text \<open>The handler of the window's \<^verbatim>\<open>destroyed\<close> signal, connected in \<^verbatim>\<open>init\<close>.\<close>

definition windowDestroyed :: "TabModel \<Rightarrow> TabModel" where
  "windowDestroyed s =
     notify EndResetModel ((notify BeginResetModel s)\<lparr>m_window := None, m_tabs := []\<rparr>)"

text \<open>
  \<^verbatim>\<open>init\<close>: the loop replays \<^verbatim>\<open>tabInserted(i)\<close> for the tabs the window has, reading
  \<^verbatim>\<open>m_window->tabCount()\<close> at every test. The \<^verbatim>\<open>connect\<close> calls that follow make the
  three handlers above and \<open>windowDestroyed\<close> the slots of the container's and the
  window's signals.
\<close>

function init_loop :: "int \<Rightarrow> TabModel \<Rightarrow> fault + TabModel" where
  "init_loop i s =
     (case m_window s of
        None \<Rightarrow> Inl NullDeref
      | Some w \<Rightarrow>
         if i < tabCount w
         then (case tabInserted i s of Inl f \<Rightarrow> Inl f | Inr s' \<Rightarrow> init_loop (i + 1) s')
         else Inr s)"
  by pat_completeness auto
termination
  by (relation "measure (\<lambda>(i, s). case m_window s of None \<Rightarrow> 0 | Some w \<Rightarrow> nat (tabCount w - i))")
    (auto simp: tabInserted_def notify_def Let_def split: option.splits sum.splits)

declare init_loop.simps [simp del]

definition init :: "TabModel \<Rightarrow> fault + TabModel" where
  "init s = init_loop 0 s"

text \<open>The constructor: \<open>m_window\<close> is set from the argument, then \<^verbatim>\<open>init()\<close> runs.\<close>

definition TabModel_new :: "BrowserWindow option \<Rightarrow> fault + TabModel" where
  "TabModel_new window = init \<lparr>m_window = window, m_tabs = [], notified = []\<rparr>"

subsection \<open>A reference list and the container's events\<close>

text \<open>
  The reference the specification compares the model with: a plain list under
  insert-at, remove-at and move (remove, then insert at the destination).
\<close>

fun insert_at :: "nat \<Rightarrow> 'a \<Rightarrow> 'a list \<Rightarrow> 'a list" where
  "insert_at 0 x xs = x # xs"
| "insert_at (Suc n) x [] = [x]"
| "insert_at (Suc n) x (y # ys) = y # insert_at n x ys"

fun remove_at :: "nat \<Rightarrow> 'a list \<Rightarrow> 'a list" where
  "remove_at n [] = []"
| "remove_at 0 (y # ys) = ys"
| "remove_at (Suc n) (y # ys) = y # remove_at n ys"

definition move_at :: "nat \<Rightarrow> nat \<Rightarrow> 'a list \<Rightarrow> 'a list" where
  "move_at from to xs = insert_at to (xs ! from) (remove_at from xs)"

text \<open>
  An event of the tab container. \<open>Inserted i t\<close>: the container has put tab \<open>t\<close> at
  position \<open>i\<close> and emits \<^verbatim>\<open>tabInserted(i)\<close>; likewise for the other two.
\<close>

datatype event = Inserted int WebTab_ptr | Removed int | Moved int int

fun reference :: "event \<Rightarrow> WebTab_ptr list \<Rightarrow> WebTab_ptr list" where
  "reference (Inserted i t) xs = insert_at (nat i) t xs"
| "reference (Removed i) xs = remove_at (nat i) xs"
| "reference (Moved from to) xs = move_at (nat from) (nat to) xs"

fun reference_run :: "event list \<Rightarrow> WebTab_ptr list \<Rightarrow> WebTab_ptr list" where
  "reference_run [] xs = xs"
| "reference_run (e # es) xs = reference_run es (reference e xs)"

fun in_range :: "event \<Rightarrow> nat \<Rightarrow> bool" where
  "in_range (Inserted i t) n = (0 \<le> i \<and> i \<le> int n)"
| "in_range (Removed i) n = (0 \<le> i \<and> i < int n)"
| "in_range (Moved from to) n = (0 \<le> from \<and> from < int n \<and> 0 \<le> to \<and> to < int n)"

fun all_in_range :: "event list \<Rightarrow> WebTab_ptr list \<Rightarrow> bool" where
  "all_in_range [] xs = True"
| "all_in_range (e # es) xs = (in_range e (length xs) \<and> all_in_range es (reference e xs))"

text \<open>
  Modelled from the spec: the container (not in the source file) performs the operation on
  its own list, which the model sees through \<open>m_window\<close>, and then calls the connected
  handler with the indices of the signal.
\<close>

definition container_apply :: "event \<Rightarrow> TabModel \<Rightarrow> TabModel" where
  "container_apply e s =
     s\<lparr>m_window := map_option (\<lambda>w. w\<lparr>tabWidget := reference e (tabWidget w)\<rparr>) (m_window s)\<rparr>"

fun handler :: "event \<Rightarrow> TabModel \<Rightarrow> fault + TabModel" where
  "handler (Inserted i t) s = tabInserted i s"
| "handler (Removed i) s = tabRemoved i s"
| "handler (Moved from to) s = tabMoved from to s"

definition deliver :: "event \<Rightarrow> TabModel \<Rightarrow> fault + TabModel" where
  "deliver e s = handler e (container_apply e s)"

fun run :: "event list \<Rightarrow> fault + TabModel \<Rightarrow> fault + TabModel" where
  "run [] r = r"
| "run (e # es) r = (case r of Inl f \<Rightarrow> Inl f | Inr s \<Rightarrow> run es (deliver e s))"

subsection \<open>Drag and drop\<close>

text \<open>
  \<^verbatim>\<open>QDataStream\<close> writes an \<^verbatim>\<open>int\<close> as a 32-bit two's complement value, most
  significant byte first (its default byte order). Reading takes four bytes; when fewer
  are left the read fails, the value read is 0 and the device is at its end.
\<close>

type_synonym byte = "8 word"

definition int32_bytes :: "int \<Rightarrow> byte list" where
  "int32_bytes i =
     (let w = (word_of_int i :: 32 word)
      in [ucast (drop_bit 24 w), ucast (drop_bit 16 w), ucast (drop_bit 8 w), ucast w])"

definition bytes_int32 :: "byte \<Rightarrow> byte \<Rightarrow> byte \<Rightarrow> byte \<Rightarrow> int" where
  "bytes_int32 b0 b1 b2 b3 =
     sint (push_bit 24 (ucast b0) OR push_bit 16 (ucast b1) OR push_bit 8 (ucast b2)
           OR ucast b3 :: 32 word)"

definition is_int32 :: "int \<Rightarrow> bool" where
  "is_int32 i = (- (2 ^ 31) \<le> i \<and> i < 2 ^ 31)"

text \<open>A \<^verbatim>\<open>QMimeData\<close>: the byte array stored under each format name.\<close>

type_synonym QMimeData = "string \<rightharpoonup> byte list"

definition hasFormat :: "QMimeData \<Rightarrow> string \<Rightarrow> bool" where
  "hasFormat d f = (d f \<noteq> None)"

definition QMimeData_data :: "QMimeData \<Rightarrow> string \<Rightarrow> byte list" where
  "QMimeData_data d f = (case d f of None \<Rightarrow> [] | Some b \<Rightarrow> b)"

definition MIMETYPE :: string where
  "MIMETYPE = ''application/qupzilla.tabmodel.tab''"

text \<open>The loop of \<^verbatim>\<open>mimeData\<close> over the indexes, appending to the stream's buffer.\<close>

fun mimeData_loop :: "QModelIndex list \<Rightarrow> byte list \<Rightarrow> byte list" where
  "mimeData_loop [] buf = buf"
| "mimeData_loop (i # idxs) buf =
     mimeData_loop idxs (if isValid i \<and> column i = 0 then buf @ int32_bytes (row i) else buf)"

definition mimeData :: "QModelIndex list \<Rightarrow> QMimeData" where
  "mimeData indexes = Map.empty(MIMETYPE \<mapsto> mimeData_loop indexes [])"

text \<open>
  The \<^verbatim>\<open>while (!stream.atEnd())\<close> loop of \<^verbatim>\<open>dropMimeData\<close>: read \<open>idx\<close>, resolve
  \<^verbatim>\<open>tab(index(idx))\<close>, keep it when it is not null.
\<close>

fun decode_loop :: "TabModel \<Rightarrow> byte list \<Rightarrow> WebTab_ptr list \<Rightarrow> WebTab_ptr list" where
  "decode_loop s (b0 # b1 # b2 # b3 # rest) tabs =
     (let idx = bytes_int32 b0 b1 b2 b3; t = tab s (index s idx)
      in decode_loop s rest (if t \<noteq> None then tabs @ [t] else tabs))"
| "decode_loop s [] tabs = tabs"
| "decode_loop s short tabs =
     (let idx = 0; t = tab s (index s idx)
      in if t \<noteq> None then tabs @ [t] else tabs)"

text \<open>The values \<open>idx\<close> takes in that loop, in order.\<close>

fun decode_rows :: "byte list \<Rightarrow> int list" where
  "decode_rows (b0 # b1 # b2 # b3 # rest) = bytes_int32 b0 b1 b2 b3 # decode_rows rest"
| "decode_rows [] = []"
| "decode_rows short = [0]"

text \<open>
  The \<^verbatim>\<open>for\<close> loop of \<^verbatim>\<open>dropMimeData\<close>. \<open>moveTab\<close> is the container's command, which
  is not in the source file: it is a parameter, any function on the container. The loop
  returns the requests it made, in order, and the container they leave.
\<close>

fun move_loop ::
  "(BrowserWindow \<Rightarrow> int \<Rightarrow> int \<Rightarrow> BrowserWindow) \<Rightarrow> WebTab_ptr list \<Rightarrow> int \<Rightarrow> BrowserWindow
     \<Rightarrow> (int \<times> int) list \<times> BrowserWindow" where
  "move_loop moveTab [] r w = ([], w)"
| "move_loop moveTab (t # tabs) r w =
     (let from = WebTab_tabIndex w t;
          to = (if r \<ge> from then r - 1 else r);
          r' = (if r \<ge> from then r else r + 1);
          (reqs, w') = move_loop moveTab tabs r' (moveTab w from to)
      in ((from, to) # reqs, w'))"

text \<open>
  \<^verbatim>\<open>dropMimeData\<close> returns its boolean, the model afterwards and the \<^verbatim>\<open>moveTab\<close>
  requests made. In this definition the command acts on the container alone, which
  settles the boolean and the requests; what the container's signal does to the model
  during the call is in \<open>dropMimeData_connected\<close> below.
\<close>

definition dropMimeData ::
  "(BrowserWindow \<Rightarrow> int \<Rightarrow> int \<Rightarrow> BrowserWindow) \<Rightarrow> TabModel \<Rightarrow> QMimeData \<Rightarrow> DropAction
     \<Rightarrow> int \<Rightarrow> int \<Rightarrow> QModelIndex \<Rightarrow> bool \<times> TabModel \<times> (int \<times> int) list" where
  "dropMimeData moveTab s d action r c parent =
     (if action = IgnoreAction then (True, s, [])
      else case m_window s of
          None \<Rightarrow> (False, s, [])
        | Some w \<Rightarrow>
           if \<not> hasFormat d MIMETYPE \<or> isValid parent \<or> c \<noteq> 0 then (False, s, [])
           else
             (let tabs = decode_loop s (QMimeData_data d MIMETYPE) []
              in if tabs = [] then (False, s, [])
                 else
                   (let (reqs, w') = move_loop moveTab tabs r w
                    in (True, s\<lparr>m_window := Some w'\<rparr>, reqs))))"

text \<open>
  Modelled from the spec: a container whose \<^verbatim>\<open>moveTab(from, to)\<close> moves the tab when
  both positions exist and differ, and ignores the request otherwise.
\<close>

definition TabWidget_moveTab :: "BrowserWindow \<Rightarrow> int \<Rightarrow> int \<Rightarrow> BrowserWindow" where
  "TabWidget_moveTab w from to =
     (if 0 \<le> from \<and> from < tabCount w \<and> 0 \<le> to \<and> to < tabCount w \<and> from \<noteq> to
      then w\<lparr>tabWidget := move_at (nat from) (nat to) (tabWidget w)\<rparr> else w)"

text \<open>
  The state before iteration \<open>i\<close> of the reorder loop, told forwards as the
  specification does: the drop row and the container after the first \<open>i\<close> tabs.
\<close>

primrec drop_state ::
  "(BrowserWindow \<Rightarrow> int \<Rightarrow> int \<Rightarrow> BrowserWindow) \<Rightarrow> WebTab_ptr list \<Rightarrow> nat
     \<Rightarrow> int \<times> BrowserWindow \<Rightarrow> int \<times> BrowserWindow" where
  "drop_state moveTab tabs 0 st = st"
| "drop_state moveTab tabs (Suc i) st =
     (let (r, w) = drop_state moveTab tabs i st;
          cur = WebTab_tabIndex w (tabs ! i)
      in if r \<ge> cur then (r, moveTab w cur (r - 1)) else (r + 1, moveTab w cur r))"

subsection \<open>The drop with the container's signal connected\<close>

text \<open>
  \<^verbatim>\<open>init\<close> connects the container's \<^verbatim>\<open>tabMoved\<close> signal to \<^verbatim>\<open>TabModel::tabMoved\<close>
  (line 182), and a signal calls its slot before the emitting call returns. So in the
  program the \<^verbatim>\<open>moveTab\<close> of line 168 acts on the model too, and can fault as the
  handler can. Here the command is a function \<open>mv\<close> on the whole state; the loop reads
  the container through \<open>m_window\<close> at every iteration.
\<close>

fun move_loop_connected ::
  "(TabModel \<Rightarrow> int \<Rightarrow> int \<Rightarrow> fault + TabModel) \<Rightarrow> WebTab_ptr list \<Rightarrow> int \<Rightarrow> TabModel
     \<Rightarrow> fault + ((int \<times> int) list \<times> TabModel)" where
  "move_loop_connected mv [] r s = Inr ([], s)"
| "move_loop_connected mv (t # tabs) r s =
     (case m_window s of
        None \<Rightarrow> Inl NullDeref
      | Some w \<Rightarrow>
         (let from = WebTab_tabIndex w t;
              to = (if r \<ge> from then r - 1 else r);
              r' = (if r \<ge> from then r else r + 1)
          in case mv s from to of
               Inl f \<Rightarrow> Inl f
             | Inr s1 \<Rightarrow>
                (case move_loop_connected mv tabs r' s1 of
                   Inl f \<Rightarrow> Inl f
                 | Inr (reqs, s') \<Rightarrow> Inr ((from, to) # reqs, s'))))"

definition dropMimeData_connected ::
  "(TabModel \<Rightarrow> int \<Rightarrow> int \<Rightarrow> fault + TabModel) \<Rightarrow> TabModel \<Rightarrow> QMimeData \<Rightarrow> DropAction
     \<Rightarrow> int \<Rightarrow> int \<Rightarrow> QModelIndex \<Rightarrow> fault + (bool \<times> TabModel \<times> (int \<times> int) list)" where
  "dropMimeData_connected mv s d action r c parent =
     (if action = IgnoreAction then Inr (True, s, [])
      else if m_window s = None \<or> \<not> hasFormat d MIMETYPE \<or> isValid parent \<or> c \<noteq> 0
      then Inr (False, s, [])
      else
        (let tabs = decode_loop s (QMimeData_data d MIMETYPE) []
         in if tabs = [] then Inr (False, s, [])
            else
              (case move_loop_connected mv tabs r s of
                 Inl f \<Rightarrow> Inl f
               | Inr (reqs, s') \<Rightarrow> Inr (True, s', reqs))))"

text \<open>
  Modelled from the spec: the container of \<open>TabWidget_moveTab\<close> with the connection in
  place. When it moves a tab it emits \<^verbatim>\<open>tabMoved(from, to)\<close>, which runs the handler;
  a request it ignores emits nothing.
\<close>

definition moveTab_connected :: "TabModel \<Rightarrow> int \<Rightarrow> int \<Rightarrow> fault + TabModel" where
  "moveTab_connected s from to =
     (case m_window s of
        None \<Rightarrow> Inl NullDeref
      | Some w \<Rightarrow>
         if 0 \<le> from \<and> from < tabCount w \<and> 0 \<le> to \<and> to < tabCount w \<and> from \<noteq> to
         then tabMoved from to (s\<lparr>m_window := Some (TabWidget_moveTab w from to)\<rparr>)
         else Inr s)"

text \<open>Carrying out a list of \<^verbatim>\<open>moveTab\<close> requests one after the other.\<close>

fun requests_run ::
  "(TabModel \<Rightarrow> int \<Rightarrow> int \<Rightarrow> fault + TabModel) \<Rightarrow> (int \<times> int) list \<Rightarrow> TabModel
     \<Rightarrow> fault + TabModel" where
  "requests_run mv [] s = Inr s"
| "requests_run mv ((src, dst) # reqs) s =
     (case mv s src dst of Inl f \<Rightarrow> Inl f | Inr s1 \<Rightarrow> requests_run mv reqs s1)"

section \<open>Verification\<close>

subsection \<open>The reference operations as take and drop\<close>

lemma insert_at_take_drop: "n \<le> length xs \<Longrightarrow> insert_at n x xs = take n xs @ x # drop n xs"
  by (induction n x xs rule: insert_at.induct) auto

lemma remove_at_take_drop: "remove_at n xs = take n xs @ drop (Suc n) xs"
  by (induction n xs rule: remove_at.induct) auto

lemma length_insert_at: "length (insert_at n x xs) = Suc (length xs)"
  by (induction n x xs rule: insert_at.induct) auto

lemma length_remove_at: "n < length xs \<Longrightarrow> length (remove_at n xs) = length xs - 1"
  by (simp add: remove_at_take_drop)

lemma nth_insert_at: "n \<le> length xs \<Longrightarrow> insert_at n x xs ! n = x"
  by (simp add: insert_at_take_drop nth_append)

lemma mset_insert_at: "mset (insert_at n x xs) = add_mset x (mset xs)"
  by (induction n x xs rule: insert_at.induct) auto

lemma mset_remove_at: "n < length xs \<Longrightarrow> add_mset (xs ! n) (mset (remove_at n xs)) = mset xs"
  by (induction n xs rule: remove_at.induct) auto

lemma length_move_at: "from < length xs \<Longrightarrow> length (move_at from to xs) = length xs"
  by (simp add: move_at_def length_insert_at length_remove_at)

subsection \<open>The handlers on indices in range\<close>

lemma tabMoved_Inr:
  assumes "0 \<le> from" "from < int (length (m_tabs s))" "0 \<le> to" "to < int (length (m_tabs s))"
  shows "tabMoved from to s =
     Inr (s\<lparr>m_tabs := move_at (nat from) (nat to) (m_tabs s),
            notified := notified s @ [BeginMoveRows from from (if to > from then to + 1 else to), EndMoveRows]\<rparr>)"
  using assms
  by (simp add: tabMoved_def notify_def QVector_takeAt_def QVector_insert_def move_at_def
      insert_at_take_drop remove_at_take_drop)

lemma tabInserted_Inr:
  assumes "m_window s = Some w" "0 \<le> i" "i < tabCount w" "i \<le> int (length (m_tabs s))"
  shows "tabInserted i s =
     Inr (s\<lparr>m_tabs := insert_at (nat i) (tabWidget w ! nat i) (m_tabs s),
            notified := notified s @ [BeginInsertRows i i, EndInsertRows]\<rparr>)"
  using assms
  by (simp add: tabInserted_def notify_def weView_webTab_def QVector_insert_def insert_at_take_drop)

lemma tabRemoved_Inr:
  assumes "0 \<le> i" "i < int (length (m_tabs s))"
  shows "tabRemoved i s =
     Inr (s\<lparr>m_tabs := remove_at (nat i) (m_tabs s),
            notified := notified s @ [BeginRemoveRows i i, EndRemoveRows]\<rparr>)"
  using assms
  by (simp add: tabRemoved_def notify_def QVector_remove_def remove_at_take_drop)

lemma deliver_sync:
  assumes "m_window s = Some w" "tabWidget w = m_tabs s" "in_range e (length (m_tabs s))"
  shows "\<exists>s' w'. deliver e s = Inr s' \<and> m_window s' = Some w' \<and> tabWidget w' = m_tabs s'
     \<and> m_tabs s' = reference e (m_tabs s)"
proof (cases e)
  case (Inserted i t)
  let ?w = "w\<lparr>tabWidget := insert_at (nat i) t (tabWidget w)\<rparr>"
  let ?s = "container_apply e s"
  have w: "m_window ?s = Some ?w" and t: "m_tabs ?s = m_tabs s"
    using assms Inserted by (simp_all add: container_apply_def)
  have r: "0 \<le> i" "i < tabCount ?w" "i \<le> int (length (m_tabs ?s))"
    using assms Inserted by (simp_all add: tabCount_def length_insert_at container_apply_def)
  have "tabWidget ?w ! nat i = t"
    using assms Inserted by (simp add: nth_insert_at nat_le_iff)
  with tabInserted_Inr[OF w r] show ?thesis
    using Inserted assms by (simp add: deliver_def container_apply_def)
next
  case (Removed i)
  then show ?thesis
    using assms tabRemoved_Inr[of i "container_apply e s"]
    by (simp add: deliver_def container_apply_def)
next
  case (Moved src dst)
  then show ?thesis
    using assms tabMoved_Inr[of src "container_apply e s" dst]
    by (simp add: deliver_def container_apply_def)
qed

lemma run_sync:
  assumes "m_window s = Some w" "tabWidget w = m_tabs s" "all_in_range es (m_tabs s)"
  shows "\<exists>s' w'. run es (Inr s) = Inr s' \<and> m_window s' = Some w' \<and> tabWidget w' = m_tabs s'
     \<and> m_tabs s' = reference_run es (m_tabs s)"
  using assms
proof (induction es arbitrary: s w)
  case Nil
  then show ?case by simp
next
  case (Cons e es)
  from Cons.prems have e: "in_range e (length (m_tabs s))"
    and es: "all_in_range es (reference e (m_tabs s))" by simp_all
  from deliver_sync[OF Cons.prems(1,2) e] obtain s1 w1 where
    s1: "deliver e s = Inr s1" "m_window s1 = Some w1" "tabWidget w1 = m_tabs s1"
      "m_tabs s1 = reference e (m_tabs s)" by blast
  from Cons.IH[OF s1(2,3)] es s1(4) obtain s' w' where
    "run es (Inr s1) = Inr s'" "m_window s' = Some w'" "tabWidget w' = m_tabs s'"
      "m_tabs s' = reference_run es (m_tabs s1)" by auto
  with s1 show ?case by simp
qed

subsection \<open>Construction\<close>

text \<open>
  The constructor on a window leaves the model with the window's tabs, in order; on a null
  window it dereferences the pointer.
\<close>

lemma init_loop_populates:
  assumes "m_window s = Some w" "0 \<le> i" "i \<le> tabCount w" "m_tabs s = take (nat i) (tabWidget w)"
  shows "\<exists>s'. init_loop i s = Inr s' \<and> m_window s' = Some w \<and> m_tabs s' = tabWidget w"
  using assms
proof (induction i s rule: init_loop.induct)
  case (1 i s)
  show ?case
  proof (cases "i < tabCount w")
    case False
    with "1.prems" have "nat i = length (tabWidget w)"
      by (simp add: tabCount_def)
    with "1.prems" False show ?thesis
      by (subst init_loop.simps) simp
  next
    case True
    have len: "i \<le> int (length (m_tabs s))"
      using "1.prems" True by (simp add: tabCount_def)
    let ?s' = "s\<lparr>m_tabs := insert_at (nat i) (tabWidget w ! nat i) (m_tabs s),
            notified := notified s @ [BeginInsertRows i i, EndInsertRows]\<rparr>"
    have ins: "tabInserted i s = Inr ?s'"
      by (rule tabInserted_Inr[OF "1.prems"(1,2) True len])
    have n: "nat i < length (tabWidget w)"
      using "1.prems"(2) True by (simp add: tabCount_def)
    have "insert_at (nat i) (tabWidget w ! nat i) (m_tabs s) = take (nat (i + 1)) (tabWidget w)"
      using "1.prems" n
      by (simp add: insert_at_take_drop take_Suc_conv_app_nth nat_add_distrib)
    then have "\<exists>s''. init_loop (i + 1) ?s' = Inr s'' \<and> m_window s'' = Some w \<and> m_tabs s'' = tabWidget w"
      using "1.IH"[OF "1.prems"(1) True ins] "1.prems" True by simp
    then show ?thesis
      using "1.prems"(1) True ins by (simp add: init_loop.simps[of i s])
  qed
qed

lemma TabModel_new_populates:
  "\<exists>s. TabModel_new (Some w) = Inr s \<and> m_window s = Some w \<and> m_tabs s = tabWidget w"
  using init_loop_populates[of "\<lparr>m_window = Some w, m_tabs = [], notified = []\<rparr>" w 0]
  by (simp add: TabModel_new_def init_def tabCount_def)

lemma TabModel_new_null: "TabModel_new None = Inl NullDeref"
  by (simp add: TabModel_new_def init_def init_loop.simps)

lemma TabModel_new_empty:
  "TabModel_new (Some \<lparr>tabWidget = []\<rparr>)
     = Inr \<lparr>m_window = Some \<lparr>tabWidget = []\<rparr>, m_tabs = [], notified = []\<rparr>"
  by (simp add: TabModel_new_def init_def init_loop.simps tabCount_def)

lemma tab_index_row:
  assumes "0 \<le> r" "r < int (length (m_tabs s))"
  shows "tab s (index s r) = m_tabs s ! nat r"
  using assms
  by (simp add: tab_def index_def rowCount_def isValid_def QModelIndex_null_def
      QVector_count_def QVector_value_def)

subsection \<open>The model follows the container\<close>

text \<open>
  Claim C1. Start from the model of a window without tabs and deliver any sequence of
  \<^verbatim>\<open>tabInserted\<close>, \<^verbatim>\<open>tabRemoved\<close> and \<^verbatim>\<open>tabMoved\<close> events whose indices are in
  range. No handler faults; the model's list is the reference list after the same
  insert-at, remove-at and move operations, the row count is its length, and the tab of
  every row is the reference's element at that position.
\<close>

theorem model_tracks_reference:
  assumes "all_in_range es []"
  shows "\<exists>s. run es (TabModel_new (Some \<lparr>tabWidget = []\<rparr>)) = Inr s
     \<and> m_tabs s = reference_run es []
     \<and> rowCount s QModelIndex_null = int (length (reference_run es []))
     \<and> (\<forall>r. 0 \<le> r \<and> r < int (length (reference_run es []))
           \<longrightarrow> tab s (index s r) = reference_run es [] ! nat r)"
proof -
  let ?s0 = "\<lparr>m_window = Some \<lparr>tabWidget = []\<rparr>, m_tabs = [], notified = []\<rparr>"
  from run_sync[of ?s0 "\<lparr>tabWidget = []\<rparr>" es] assms obtain s where
    s: "run es (Inr ?s0) = Inr s" "m_tabs s = reference_run es []" by auto
  have "rowCount s QModelIndex_null = int (length (reference_run es []))"
    using s(2) by (simp add: rowCount_def isValid_def QModelIndex_null_def QVector_count_def)
  moreover have "\<forall>r. 0 \<le> r \<and> r < int (length (reference_run es []))
           \<longrightarrow> tab s (index s r) = reference_run es [] ! nat r"
    using s(2) tab_index_row[of _ s] by simp
  ultimately show ?thesis
    using s by (simp add: TabModel_new_empty)
qed

theorem model_tracks_reference_witness:
  "all_in_range [Inserted 0 (Some 1), Inserted 0 (Some 2), Inserted 2 (Some 3), Moved 0 2, Removed 1] []
   \<and> (\<exists>s. run [Inserted 0 (Some 1), Inserted 0 (Some 2), Inserted 2 (Some 3), Moved 0 2, Removed 1]
             (TabModel_new (Some \<lparr>tabWidget = []\<rparr>)) = Inr s
        \<and> m_tabs s = [Some 1, Some 2]
        \<and> rowCount s QModelIndex_null = 2)"
proof -
  let ?es = "[Inserted 0 (Some 1), Inserted 0 (Some 2), Inserted 2 (Some 3), Moved 0 2, Removed 1]"
  have h: "all_in_range ?es []"
    by code_simp
  have r: "reference_run ?es [] = [Some 1, Some 2]"
    by code_simp
  show ?thesis
    using h model_tracks_reference[OF h] unfolding r by auto
qed

subsection \<open>Moving a row\<close>

text \<open>
  Claim C3 (as stated, refuted). On the list [A, B, C, D] (the tabs at addresses 1 to 4),
  \<^verbatim>\<open>tabMoved(0, 3)\<close> gives [B, C, D, A]: observers are told destination 4, and the tab that
  was at row 0 is at row 3. Row \<open>3 - 1\<close> holds D, not A.
\<close>

theorem tabMoved_row_to_minus_1_counterexample:
  "tabMoved 0 3 \<lparr>m_window = None, m_tabs = [Some 1, Some 2, Some 3, Some 4], notified = []\<rparr>
     = Inr \<lparr>m_window = None, m_tabs = [Some 2, Some 3, Some 4, Some 1],
            notified = [BeginMoveRows 0 0 4, EndMoveRows]\<rparr>
   \<and> [Some 2, Some 3, Some 4, Some (1::nat)] ! nat (3 - 1) \<noteq> [Some 1, Some 2, Some 3, Some 4] ! nat 0"
  by (simp add: tabMoved_def notify_def QVector_takeAt_def QVector_insert_def)

text \<open>
  Claim C3 (amended). For \<open>from\<close> and \<open>to\<close> in range, \<^verbatim>\<open>tabMoved(from, to)\<close> does not
  fault; it tells observers the destination \<open>to + 1\<close> when \<open>to > from\<close> and \<open>to\<close>
  otherwise; the list is spliced with the raw \<open>to\<close> (remove at \<open>from\<close>, insert at
  \<open>to\<close>); and the tab that was at row \<open>from\<close> is at row \<open>to\<close> afterwards.
\<close>

theorem tabMoved_splice:
  assumes "0 \<le> from" "from < int (length (m_tabs s))" "0 \<le> to" "to < int (length (m_tabs s))"
  shows "\<exists>s'. tabMoved from to s = Inr s'
     \<and> notified s' = notified s @ [BeginMoveRows from from (if to > from then to + 1 else to), EndMoveRows]
     \<and> m_tabs s' = insert_at (nat to) (m_tabs s ! nat from) (remove_at (nat from) (m_tabs s))
     \<and> m_tabs s' ! nat to = m_tabs s ! nat from"
proof -
  have "nat to \<le> length (remove_at (nat from) (m_tabs s))"
    using assms by (simp add: length_remove_at nat_le_iff)
  then have "insert_at (nat to) (m_tabs s ! nat from) (remove_at (nat from) (m_tabs s)) ! nat to
      = m_tabs s ! nat from"
    by (rule nth_insert_at)
  then show ?thesis
    using tabMoved_Inr[OF assms] by (simp add: move_at_def)
qed

theorem tabMoved_splice_witness:
  "(0::int) \<le> 0 \<and> (0::int) < int (length [Some 1, Some 2, Some 3, Some (4::nat)])
   \<and> (0::int) \<le> 3 \<and> (3::int) < int (length [Some 1, Some 2, Some 3, Some (4::nat)])
   \<and> (\<exists>s'. tabMoved 0 3 \<lparr>m_window = None, m_tabs = [Some 1, Some 2, Some 3, Some 4], notified = []\<rparr> = Inr s'
        \<and> notified s' = [BeginMoveRows 0 0 4, EndMoveRows]
        \<and> m_tabs s' = [Some 2, Some 3, Some 4, Some 1]
        \<and> m_tabs s' ! 3 = Some 1)"
proof -
  let ?s = "\<lparr>m_window = None, m_tabs = [Some 1, Some 2, Some 3, Some (4::nat)], notified = []\<rparr>"
  have r: "insert_at (nat 3) (m_tabs ?s ! nat 0) (remove_at (nat 0) (m_tabs ?s))
      = [Some 2, Some 3, Some 4, Some 1]"
    by code_simp
  show ?thesis
    using tabMoved_splice[of 0 ?s 3] unfolding r by simp
qed

text \<open>
  Claim C10. For \<open>from\<close> in range and \<open>to\<close> a valid insertion position of the list the
  tab has been taken from (\<open>0 \<le> to \<le> length - 1\<close>, the insertion the code makes),
  \<^verbatim>\<open>tabMoved(from, to)\<close> does not fault and leaves the length and the multiset of tab
  references as they were: the new list is a permutation of the old one.
\<close>

theorem tabMoved_permutation:
  assumes "0 \<le> from" "from < int (length (m_tabs s))" "0 \<le> to" "to \<le> int (length (m_tabs s)) - 1"
  shows "\<exists>s'. tabMoved from to s = Inr s'
     \<and> length (m_tabs s') = length (m_tabs s) \<and> mset (m_tabs s') = mset (m_tabs s)"
proof -
  have to: "to < int (length (m_tabs s))"
    using assms(4) by simp
  have f: "nat from < length (m_tabs s)"
    using assms(1,2) by simp
  have "mset (move_at (nat from) (nat to) (m_tabs s)) = mset (m_tabs s)"
    by (simp add: move_at_def mset_insert_at mset_remove_at[OF f])
  then show ?thesis
    using tabMoved_Inr[OF assms(1,2,3) to] f by (simp add: length_move_at)
qed

theorem tabMoved_permutation_witness:
  "(0::int) \<le> 2 \<and> (2::int) < int (length [Some 1, Some 2, Some (3::nat)])
   \<and> (0::int) \<le> 0 \<and> (0::int) \<le> int (length [Some 1, Some 2, Some (3::nat)]) - 1
   \<and> (\<exists>s'. tabMoved 2 0 \<lparr>m_window = None, m_tabs = [Some 1, Some 2, Some 3], notified = []\<rparr> = Inr s'
        \<and> length (m_tabs s') = 3 \<and> mset (m_tabs s') = mset [Some 1, Some 2, Some 3])"
  using tabMoved_permutation[of 2 "\<lparr>m_window = None, m_tabs = [Some 1, Some 2, Some 3], notified = []\<rparr>" 0]
  by (simp add: numeral_3_eq_3)

text \<open>One position further the insertion is outside the vector.\<close>

lemma tabMoved_past_end:
  "0 \<le> from \<Longrightarrow> from < int (length (m_tabs s)) \<Longrightarrow> tabMoved from (int (length (m_tabs s))) s = Inl OutOfRange"
  by (simp add: tabMoved_def notify_def QVector_takeAt_def QVector_insert_def)

subsection \<open>Field queries\<close>

text \<open>
  Claim C7. \<^verbatim>\<open>data\<close> on a row that is negative or at least the length of the list, or
  with a role outside the recognised set, returns the empty variant and does not fault,
  whatever the tab objects are. The row equal to the length passes the first test of the
  code (\<open>>\<close>) and is caught by the null test on \<^verbatim>\<open>tab(index)\<close>.
\<close>

theorem data_no_value:
  assumes "row i < 0 \<or> row i \<ge> int (length (m_tabs s)) \<or> (\<exists>n. role = OtherRole n)"
  shows "data h s i role = Inr Invalid"
  using assms
  by (auto simp: data_def tab_def QVector_value_def QVector_count_def split: option.splits Role.splits)

theorem data_no_value_witness:
  "row \<lparr>row = 2, column = 0, has_model = True\<rparr>
      \<ge> int (length (m_tabs \<lparr>m_window = None, m_tabs = [Some 1, Some 2], notified = []\<rparr>))
   \<and> data Map.empty \<lparr>m_window = None, m_tabs = [Some 1, Some 2], notified = []\<rparr>
        \<lparr>row = 2, column = 0, has_model = True\<rparr> TitleRole = Inr Invalid"
  using data_no_value[of "\<lparr>row = 2, column = 0, has_model = True\<rparr>"
      "\<lparr>m_window = None, m_tabs = [Some 1, Some 2], notified = []\<rparr>" TitleRole Map.empty]
  by simp

subsection \<open>The byte stream\<close>

lemma word32_bytes:
  fixes w :: "32 word"
  defines "r \<equiv> (push_bit 24 (ucast (ucast (drop_bit 24 w) :: byte))
      OR push_bit 16 (ucast (ucast (drop_bit 16 w) :: byte))
      OR push_bit 8 (ucast (ucast (drop_bit 8 w) :: byte)) OR ucast (ucast w :: byte) :: 32 word)"
  shows "r = w"
proof (rule bit_word_eqI)
  fix n :: nat
  assume "n < LENGTH(32)"
  then have n: "n < 32" by simp
  consider "n < 8" | "8 \<le> n" "n < 16" | "16 \<le> n" "n < 24" | "24 \<le> n"
    by linarith
  then show "bit r n = bit w n"
    unfolding r_def using n by cases (auto simp: bit_simps)
qed

lemma sint32_of_int:
  assumes "is_int32 i"
  shows "sint (word_of_int i :: 32 word) = i"
proof -
  have "signed_take_bit 31 i = i"
    using assms unfolding is_int32_def by (intro signed_take_bit_int_eq_self) simp_all
  then show ?thesis by (simp add: sint_sbintrunc')
qed

lemma decode_rows_int32_bytes:
  assumes "is_int32 i"
  shows "decode_rows (int32_bytes i @ bs) = i # decode_rows bs"
  using sint32_of_int[OF assms]
  by (simp add: int32_bytes_def bytes_int32_def Let_def word32_bytes)

lemma decode_rows_concat:
  assumes "\<forall>i\<in>set rows. is_int32 i"
  shows "decode_rows (concat (map int32_bytes rows)) = rows"
  using assms by (induction rows) (simp_all add: decode_rows_int32_bytes)

lemma mimeData_loop_eq:
  "mimeData_loop idxs buf
     = buf @ concat (map (\<lambda>i. int32_bytes (row i)) (filter (\<lambda>i. isValid i \<and> column i = 0) idxs))"
  by (induction idxs arbitrary: buf) simp_all

lemma decode_loop_rows:
  "decode_loop s bs acc
     = acc @ filter (\<lambda>t. t \<noteq> None) (map (\<lambda>idx. tab s (index s idx)) (decode_rows bs))"
  by (induction s bs acc rule: decode_loop.induct) (simp_all add: Let_def)

lemma mimeData_payload_eq:
  "QMimeData_data (mimeData indexes) MIMETYPE
     = concat (map (\<lambda>i. int32_bytes (row i)) (filter (\<lambda>i. isValid i \<and> column i = 0) indexes))"
  by (simp add: QMimeData_data_def mimeData_def mimeData_loop_eq)

subsection \<open>The reorder loop\<close>

lemma fst_move_loop_Cons:
  "fst (move_loop mv (t # ts) r w)
     = (let cur = WebTab_tabIndex w t
        in if r \<ge> cur then (cur, r - 1) # fst (move_loop mv ts r (mv w cur (r - 1)))
           else (cur, r) # fst (move_loop mv ts (r + 1) (mv w cur r)))"
  by (simp add: Let_def case_prod_beta)

lemma snd_move_loop_Cons:
  "snd (move_loop mv (t # ts) r w)
     = (let cur = WebTab_tabIndex w t
        in if r \<ge> cur then snd (move_loop mv ts r (mv w cur (r - 1)))
           else snd (move_loop mv ts (r + 1) (mv w cur r)))"
  by (simp add: Let_def case_prod_beta)

lemma length_move_loop: "length (fst (move_loop mv ts r w)) = length ts"
proof (induction ts arbitrary: r w)
  case Nil
  show ?case by simp
next
  case (Cons t ts)
  show ?case
    unfolding fst_move_loop_Cons by (simp add: Let_def Cons.IH)
qed

lemma drop_state_Cons:
  "drop_state mv (t # ts) (Suc i) (r, w)
     = drop_state mv ts i
         (let cur = WebTab_tabIndex w t
          in if r \<ge> cur then (r, mv w cur (r - 1)) else (r + 1, mv w cur r))"
  by (induction i) (simp_all add: Let_def)

lemma move_loop_nth:
  assumes "i < length ts"
  shows "fst (move_loop mv ts r w) ! i
     = (let (r', w') = drop_state mv ts i (r, w); cur = WebTab_tabIndex w' (ts ! i)
        in (cur, if r' \<ge> cur then r' - 1 else r'))"
  using assms
proof (induction ts arbitrary: i r w)
  case Nil
  then show ?case by simp
next
  case (Cons t ts)
  show ?case
  proof (cases i)
    case 0
    show ?thesis
      unfolding 0 fst_move_loop_Cons by (simp add: Let_def)
  next
    case (Suc j)
    with Cons.prems have j: "j < length ts" by simp
    show ?thesis
      unfolding Suc drop_state_Cons fst_move_loop_Cons
      by (simp add: Let_def Cons.IH[OF j])
  qed
qed

lemma move_loop_final:
  "snd (move_loop mv ts r w) = snd (drop_state mv ts (length ts) (r, w))"
proof (induction ts arbitrary: r w)
  case Nil
  show ?case by simp
next
  case (Cons t ts)
  show ?case
    unfolding snd_move_loop_Cons length_Cons drop_state_Cons
    by (simp add: Let_def Cons.IH)
qed

subsection \<open>Drops that are refused\<close>

lemma dropMimeData_no_tabs:
  assumes "action \<noteq> IgnoreAction"
    "\<forall>idx\<in>set (decode_rows (QMimeData_data d MIMETYPE)). tab s (index s idx) = None"
  shows "dropMimeData mv s d action r c parent = (False, s, [])"
proof -
  have "decode_loop s (QMimeData_data d MIMETYPE) [] = []"
    using assms(2) by (simp add: decode_loop_rows filter_empty_conv)
  then show ?thesis
    using assms(1) by (simp add: dropMimeData_def split: option.splits)
qed

text \<open>
  Claim C4. \<^verbatim>\<open>dropMimeData\<close> returns true and does nothing when the action is the ignore
  action. For any other action it returns false, with the model as it was and no move
  requested, when the window pointer is null, when the payload lacks the private format,
  when the parent index is valid, when the column is not 0, and when none of the decoded
  rows resolves to a tab.
\<close>

theorem dropMimeData_rejects:
  "dropMimeData mv s d IgnoreAction r c parent = (True, s, [])
   \<and> (action \<noteq> IgnoreAction
        \<and> (m_window s = None \<or> \<not> hasFormat d MIMETYPE \<or> isValid parent \<or> c \<noteq> 0)
      \<longrightarrow> dropMimeData mv s d action r c parent = (False, s, []))
   \<and> (action \<noteq> IgnoreAction
        \<and> (\<forall>idx\<in>set (decode_rows (QMimeData_data d MIMETYPE)). tab s (index s idx) = None)
      \<longrightarrow> dropMimeData mv s d action r c parent = (False, s, []))"
proof (intro conjI impI)
  show "dropMimeData mv s d IgnoreAction r c parent = (True, s, [])"
    by (simp add: dropMimeData_def)
next
  assume "action \<noteq> IgnoreAction
    \<and> (m_window s = None \<or> \<not> hasFormat d MIMETYPE \<or> isValid parent \<or> c \<noteq> 0)"
  then show "dropMimeData mv s d action r c parent = (False, s, [])"
    by (auto simp: dropMimeData_def split: option.splits)
next
  assume "action \<noteq> IgnoreAction
    \<and> (\<forall>idx\<in>set (decode_rows (QMimeData_data d MIMETYPE)). tab s (index s idx) = None)"
  then show "dropMimeData mv s d action r c parent = (False, s, [])"
    using dropMimeData_no_tabs by blast
qed

theorem dropMimeData_rejects_witness:
  "MoveAction \<noteq> IgnoreAction
   \<and> isValid \<lparr>row = 0, column = 0, has_model = True\<rparr>
   \<and> dropMimeData TabWidget_moveTab
        \<lparr>m_window = Some \<lparr>tabWidget = [Some 1, Some 2]\<rparr>, m_tabs = [Some 1, Some 2], notified = []\<rparr>
        (mimeData [\<lparr>row = 1, column = 0, has_model = True\<rparr>]) MoveAction 0 0
        \<lparr>row = 0, column = 0, has_model = True\<rparr>
      = (False, \<lparr>m_window = Some \<lparr>tabWidget = [Some 1, Some 2]\<rparr>, m_tabs = [Some 1, Some 2],
                 notified = []\<rparr>, [])
   \<and> decode_rows (QMimeData_data (mimeData [\<lparr>row = 7, column = 0, has_model = True\<rparr>]) MIMETYPE) = [7]
   \<and> tab \<lparr>m_window = Some \<lparr>tabWidget = [Some 1, Some 2]\<rparr>, m_tabs = [Some 1, Some 2], notified = []\<rparr>
        (index \<lparr>m_window = Some \<lparr>tabWidget = [Some 1, Some 2]\<rparr>, m_tabs = [Some 1, Some 2],
                notified = []\<rparr> 7) = None
   \<and> dropMimeData TabWidget_moveTab
        \<lparr>m_window = Some \<lparr>tabWidget = [Some 1, Some 2]\<rparr>, m_tabs = [Some 1, Some 2], notified = []\<rparr>
        (mimeData [\<lparr>row = 7, column = 0, has_model = True\<rparr>]) MoveAction 0 0 QModelIndex_null
      = (False, \<lparr>m_window = Some \<lparr>tabWidget = [Some 1, Some 2]\<rparr>, m_tabs = [Some 1, Some 2],
                 notified = []\<rparr>, [])"
proof -
  let ?s = "\<lparr>m_window = Some \<lparr>tabWidget = [Some 1, Some 2]\<rparr>, m_tabs = [Some 1, Some 2], notified = []\<rparr>"
  let ?p = "\<lparr>row = 0, column = 0, has_model = True\<rparr>"
  let ?d = "mimeData [\<lparr>row = 7, column = 0, has_model = True\<rparr>]"
  have v: "isValid ?p"
    by (simp add: isValid_def)
  have rows: "decode_rows (QMimeData_data ?d MIMETYPE) = [7]"
    by (simp add: mimeData_payload_eq isValid_def int32_bytes_def bytes_int32_def)
  have none: "tab ?s (index ?s 7) = None"
    by (simp add: tab_def index_def rowCount_def isValid_def QModelIndex_null_def
        QVector_count_def QVector_value_def)
  show ?thesis
    using v rows none
      dropMimeData_rejects[of TabWidget_moveTab ?s "mimeData [\<lparr>row = 1, column = 0, has_model = True\<rparr>]"
        0 0 ?p MoveAction]
      dropMimeData_rejects[of TabWidget_moveTab ?s ?d 0 0 QModelIndex_null MoveAction]
    by simp
qed

subsection \<open>Drops that are carried out\<close>

lemma dropMimeData_True:
  assumes "action \<noteq> IgnoreAction" "dropMimeData mv s d action r c parent = (True, s', reqs)"
  shows "\<exists>w. m_window s = Some w
     \<and> decode_loop s (QMimeData_data d MIMETYPE) [] \<noteq> []
     \<and> reqs = fst (move_loop mv (decode_loop s (QMimeData_data d MIMETYPE) []) r w)
     \<and> s' = s\<lparr>m_window := Some (snd (move_loop mv (decode_loop s (QMimeData_data d MIMETYPE) []) r w))\<rparr>"
  using assms
  by (auto simp: dropMimeData_def Let_def case_prod_beta split: option.splits if_splits)

text \<open>
  Claim C5. In a drop that is carried out (any action but ignore, result true), the
  resolved tabs are taken in payload order; request number \<open>i\<close> to the container has as
  source the row the \<open>i\<close>-th tab has in the container at that moment, after the earlier
  moves, and as destination the drop row minus one when the drop row is at least that
  source, else the drop row, which is then one more for the next tab.
\<close>

theorem dropMimeData_requests:
  assumes "action \<noteq> IgnoreAction" "dropMimeData mv s d action r c parent = (True, s', reqs)"
  shows "\<exists>w tabs. m_window s = Some w
     \<and> tabs = decode_loop s (QMimeData_data d MIMETYPE) [] \<and> tabs \<noteq> []
     \<and> length reqs = length tabs
     \<and> (\<forall>i<length tabs. reqs ! i =
           (let (r', w') = drop_state mv tabs i (r, w); cur = WebTab_tabIndex w' (tabs ! i)
            in (cur, if r' \<ge> cur then r' - 1 else r')))
     \<and> m_window s' = Some (snd (drop_state mv tabs (length tabs) (r, w)))"
proof -
  from dropMimeData_True[OF assms] obtain w where
    w: "m_window s = Some w" "decode_loop s (QMimeData_data d MIMETYPE) [] \<noteq> []"
      "reqs = fst (move_loop mv (decode_loop s (QMimeData_data d MIMETYPE) []) r w)"
      "s' = s\<lparr>m_window := Some (snd (move_loop mv (decode_loop s (QMimeData_data d MIMETYPE) []) r w))\<rparr>"
    by blast
  show ?thesis
    using w by (simp add: length_move_loop move_loop_nth move_loop_final)
qed

theorem dropMimeData_requests_witness:
  "MoveAction \<noteq> IgnoreAction
   \<and> dropMimeData TabWidget_moveTab
        \<lparr>m_window = Some \<lparr>tabWidget = [Some 1, Some 2, Some 3, Some 4]\<rparr>,
          m_tabs = [Some 1, Some 2, Some 3, Some 4], notified = []\<rparr>
        (mimeData [\<lparr>row = 2, column = 0, has_model = True\<rparr>, \<lparr>row = 0, column = 0, has_model = True\<rparr>,
                   \<lparr>row = 3, column = 0, has_model = True\<rparr>])
        MoveAction 1 0 QModelIndex_null
      = (True,
         \<lparr>m_window = Some \<lparr>tabWidget = [Some 3, Some 1, Some 4, Some 2]\<rparr>,
           m_tabs = [Some 1, Some 2, Some 3, Some 4], notified = []\<rparr>,
         [(2, 1), (0, 1), (3, 2)])
   \<and> (\<exists>w tabs. Some \<lparr>tabWidget = [Some 1, Some 2, Some 3, Some 4]\<rparr> = Some w
        \<and> tabs = [Some 3, Some 1, Some 4]
        \<and> length [(2, 1), (0, 1), (3::int, 2::int)] = length tabs
        \<and> [(2, 1), (0, 1), (3, 2)] ! 1 =
            (let (r', w') = drop_state TabWidget_moveTab tabs 1 (1, w);
                 cur = WebTab_tabIndex w' (tabs ! 1)
             in (cur, if r' \<ge> cur then r' - 1 else r')))"
proof -
  let ?s = "\<lparr>m_window = Some \<lparr>tabWidget = [Some 1, Some 2, Some 3, Some 4]\<rparr>,
          m_tabs = [Some 1, Some 2, Some 3, Some 4], notified = []\<rparr>"
  let ?d = "mimeData [\<lparr>row = 2, column = 0, has_model = True\<rparr>, \<lparr>row = 0, column = 0, has_model = True\<rparr>,
                   \<lparr>row = 3, column = 0, has_model = True\<rparr>]"
  let ?s' = "\<lparr>m_window = Some \<lparr>tabWidget = [Some 3, Some 1, Some 4, Some 2]\<rparr>,
           m_tabs = [Some 1, Some 2, Some 3, Some 4], notified = []\<rparr>"
  have a: "MoveAction \<noteq> IgnoreAction" by simp
  have tabs: "decode_loop ?s (QMimeData_data ?d MIMETYPE) [] = [Some 3, Some 1, Some 4]"
    by code_simp
  have run: "dropMimeData TabWidget_moveTab ?s ?d MoveAction 1 0 QModelIndex_null
      = (True, ?s', [(2, 1), (0, 1), (3, 2)])"
    by code_simp
  from dropMimeData_requests[OF a run] show ?thesis
    using a run unfolding tabs by auto
qed

subsection \<open>The payload\<close>

text \<open>
  Claim C8. The payload \<^verbatim>\<open>mimeData\<close> stores under the private format is the
  concatenation, in input order, of the four-byte encodings of the rows of exactly those
  indexes that are valid and have column 0; the other indexes add nothing. Read back as
  the drop does, it gives those rows.
\<close>

theorem mimeData_rows:
  "mimeData indexes
     = Map.empty(MIMETYPE \<mapsto>
         concat (map (\<lambda>i. int32_bytes (row i)) (filter (\<lambda>i. isValid i \<and> column i = 0) indexes)))
   \<and> ((\<forall>i\<in>set indexes. is_int32 (row i))
        \<longrightarrow> decode_rows (QMimeData_data (mimeData indexes) MIMETYPE)
              = map row (filter (\<lambda>i. isValid i \<and> column i = 0) indexes))"
proof (intro conjI impI)
  show "mimeData indexes
     = Map.empty(MIMETYPE \<mapsto>
         concat (map (\<lambda>i. int32_bytes (row i)) (filter (\<lambda>i. isValid i \<and> column i = 0) indexes)))"
    by (simp add: mimeData_def mimeData_loop_eq)
next
  assume "\<forall>i\<in>set indexes. is_int32 (row i)"
  then have "\<forall>r\<in>set (map row (filter (\<lambda>i. isValid i \<and> column i = 0) indexes)). is_int32 r"
    by simp
  from decode_rows_concat[OF this]
  show "decode_rows (QMimeData_data (mimeData indexes) MIMETYPE)
      = map row (filter (\<lambda>i. isValid i \<and> column i = 0) indexes)"
    by (simp add: mimeData_payload_eq comp_def)
qed

theorem mimeData_rows_witness:
  "is_int32 1 \<and> is_int32 (- 1) \<and> is_int32 0 \<and> is_int32 3
   \<and> mimeData [\<lparr>row = 1, column = 0, has_model = True\<rparr>, QModelIndex_null,
               \<lparr>row = 0, column = 1, has_model = True\<rparr>, \<lparr>row = 3, column = 0, has_model = True\<rparr>]
      = Map.empty(MIMETYPE \<mapsto> [0, 0, 0, 1, 0, 0, 0, 3])
   \<and> decode_rows (QMimeData_data
        (mimeData [\<lparr>row = 1, column = 0, has_model = True\<rparr>, QModelIndex_null,
                   \<lparr>row = 0, column = 1, has_model = True\<rparr>, \<lparr>row = 3, column = 0, has_model = True\<rparr>])
        MIMETYPE) = [1, 3]"
  using mimeData_rows[of "[\<lparr>row = 1, column = 0, has_model = True\<rparr>, QModelIndex_null,
               \<lparr>row = 0, column = 1, has_model = True\<rparr>, \<lparr>row = 3, column = 0, has_model = True\<rparr>]"]
  by (simp add: is_int32_def isValid_def QModelIndex_null_def int32_bytes_def bytes_int32_def
      QMimeData_data_def)

text \<open>
  Claim C6. For indexes that are all valid and of column 0 (their rows being 32-bit
  values, as every C++ \<^verbatim>\<open>int\<close> is), the payload of \<^verbatim>\<open>mimeData\<close> carries the private
  format, and the loop of \<^verbatim>\<open>dropMimeData\<close> reads from it the same rows in the same
  order; on an unchanged model it resolves them to the tabs of those rows. For the rows
  [2, 0, 3] it reads [2, 0, 3].
\<close>

theorem mime_round_trip:
  assumes "\<forall>i\<in>set indexes. isValid i \<and> column i = 0 \<and> is_int32 (row i)"
  shows "hasFormat (mimeData indexes) MIMETYPE
     \<and> decode_rows (QMimeData_data (mimeData indexes) MIMETYPE) = map row indexes
     \<and> decode_loop s (QMimeData_data (mimeData indexes) MIMETYPE) []
         = filter (\<lambda>t. t \<noteq> None) (map (\<lambda>i. tab s (index s (row i))) indexes)"
proof -
  have f: "filter (\<lambda>i. isValid i \<and> column i = 0) indexes = indexes"
    using assms by (simp add: filter_id_conv)
  have "\<forall>r\<in>set (map row indexes). is_int32 r"
    using assms by simp
  from decode_rows_concat[OF this]
  have rows: "decode_rows (QMimeData_data (mimeData indexes) MIMETYPE) = map row indexes"
    by (simp add: mimeData_payload_eq f comp_def)
  have fmt: "hasFormat (mimeData indexes) MIMETYPE"
    by (simp add: hasFormat_def mimeData_def)
  have "decode_loop s (QMimeData_data (mimeData indexes) MIMETYPE) []
      = filter (\<lambda>t. t \<noteq> None) (map (\<lambda>i. tab s (index s (row i))) indexes)"
    unfolding decode_loop_rows rows by (simp add: comp_def)
  with fmt rows show ?thesis
    by (intro conjI)
qed

theorem mime_round_trip_witness:
  "isValid \<lparr>row = 2, column = 0, has_model = True\<rparr> \<and> is_int32 2
   \<and> isValid \<lparr>row = 0, column = 0, has_model = True\<rparr> \<and> is_int32 0
   \<and> isValid \<lparr>row = 3, column = 0, has_model = True\<rparr> \<and> is_int32 3
   \<and> decode_rows (QMimeData_data
        (mimeData [\<lparr>row = 2, column = 0, has_model = True\<rparr>, \<lparr>row = 0, column = 0, has_model = True\<rparr>,
                   \<lparr>row = 3, column = 0, has_model = True\<rparr>]) MIMETYPE) = [2, 0, 3]
   \<and> decode_loop \<lparr>m_window = None, m_tabs = [Some 1, Some 2, Some 3, Some 4], notified = []\<rparr>
        (QMimeData_data
          (mimeData [\<lparr>row = 2, column = 0, has_model = True\<rparr>, \<lparr>row = 0, column = 0, has_model = True\<rparr>,
                     \<lparr>row = 3, column = 0, has_model = True\<rparr>]) MIMETYPE) []
      = [Some 3, Some 1, Some 4]"
  using mime_round_trip[of "[\<lparr>row = 2, column = 0, has_model = True\<rparr>, \<lparr>row = 0, column = 0, has_model = True\<rparr>,
                   \<lparr>row = 3, column = 0, has_model = True\<rparr>]"
      "\<lparr>m_window = None, m_tabs = [Some 1, Some 2, Some 3, Some 4], notified = []\<rparr>"]
  by (simp add: is_int32_def isValid_def tab_def index_def rowCount_def QModelIndex_null_def
      QVector_count_def QVector_value_def)

subsection \<open>What a drop leaves alone\<close>

lemma move_loop_connected_Cons:
  "move_loop_connected mv (t # ts) r s = Inr (reqs, s') \<longleftrightarrow>
     (\<exists>w s1 rest. m_window s = Some w
        \<and> mv s (WebTab_tabIndex w t) (if r \<ge> WebTab_tabIndex w t then r - 1 else r) = Inr s1
        \<and> move_loop_connected mv ts (if r \<ge> WebTab_tabIndex w t then r else r + 1) s1 = Inr (rest, s')
        \<and> reqs = (WebTab_tabIndex w t, if r \<ge> WebTab_tabIndex w t then r - 1 else r) # rest)"
  by (auto simp: Let_def split: option.splits sum.splits)

lemma move_loop_connected_run:
  "move_loop_connected mv ts r s = Inr (reqs, s') \<Longrightarrow> requests_run mv reqs s = Inr s'"
proof (induction ts arbitrary: r s reqs)
  case Nil
  then show ?case by simp
next
  case (Cons t ts)
  from Cons.prems obtain w s1 rest where
    step: "mv s (WebTab_tabIndex w t) (if r \<ge> WebTab_tabIndex w t then r - 1 else r) = Inr s1"
    and rest: "move_loop_connected mv ts (if r \<ge> WebTab_tabIndex w t then r else r + 1) s1 = Inr (rest, s')"
    and reqs: "reqs = (WebTab_tabIndex w t, if r \<ge> WebTab_tabIndex w t then r - 1 else r) # rest"
    unfolding move_loop_connected_Cons by blast
  from Cons.IH[OF rest] step show ?case
    unfolding reqs by simp
qed

lemma requests_run_m_tabs:
  assumes "\<And>s0 src dst s1. mv s0 src dst = Inr s1 \<Longrightarrow> m_tabs s1 = m_tabs s0"
    and "requests_run mv reqs s = Inr s'"
  shows "m_tabs s' = m_tabs s"
  using assms(2)
proof (induction reqs arbitrary: s)
  case Nil
  then show ?case by simp
next
  case (Cons q reqs)
  obtain src dst where q: "q = (src, dst)" by (cases q)
  from Cons.prems obtain s1 where s1: "mv s src dst = Inr s1" "requests_run mv reqs s1 = Inr s'"
    unfolding q by (auto split: sum.splits)
  from Cons.IH[OF s1(2)] assms(1)[OF s1(1)] show ?case by simp
qed

lemma dropMimeData_connected_cases:
  assumes "dropMimeData_connected mv s d action r c parent = Inr (ok, s', reqs)"
  shows "(reqs = [] \<and> s' = s \<and> ok = (action = IgnoreAction))
     \<or> (ok \<and> action \<noteq> IgnoreAction
         \<and> move_loop_connected mv (decode_loop s (QMimeData_data d MIMETYPE) []) r s = Inr (reqs, s'))"
  using assms
  by (auto simp: dropMimeData_connected_def Let_def split: if_splits sum.splits)

text \<open>
  Claim C9 (as stated, refuted). The model mirrors a window with the tabs 1, 2, 3, and row
  0 is dropped at row 3. The drop requests \<^verbatim>\<open>moveTab(0, 2)\<close>; the container moves the
  tab and its signal runs \<^verbatim>\<open>tabMoved(0, 2)\<close> before the request returns. When
  \<^verbatim>\<open>dropMimeData\<close> returns, the model's list is [2, 3, 1] and a move has been notified:
  the list is not what it was before the call.
\<close>

theorem dropMimeData_list_identical_counterexample:
  "dropMimeData_connected moveTab_connected
      \<lparr>m_window = Some \<lparr>tabWidget = [Some 1, Some 2, Some 3]\<rparr>,
        m_tabs = [Some 1, Some 2, Some 3], notified = []\<rparr>
      (mimeData [\<lparr>row = 0, column = 0, has_model = True\<rparr>]) MoveAction 3 0 QModelIndex_null
     = Inr (True,
            \<lparr>m_window = Some \<lparr>tabWidget = [Some 2, Some 3, Some 1]\<rparr>,
              m_tabs = [Some 2, Some 3, Some 1], notified = [BeginMoveRows 0 0 3, EndMoveRows]\<rparr>,
            [(0, 2)])
   \<and> m_tabs \<lparr>m_window = Some \<lparr>tabWidget = [Some 2, Some 3, Some 1]\<rparr>,
          m_tabs = [Some 2, Some 3, Some 1], notified = [BeginMoveRows 0 0 3, EndMoveRows]\<rparr>
     \<noteq> m_tabs \<lparr>m_window = Some \<lparr>tabWidget = [Some 1, Some 2, Some 3]\<rparr>,
          m_tabs = [Some 1, Some 2, Some 3], notified = []\<rparr>"
proof -
  have "dropMimeData_connected moveTab_connected
      \<lparr>m_window = Some \<lparr>tabWidget = [Some 1, Some 2, Some 3]\<rparr>,
        m_tabs = [Some 1, Some 2, Some 3], notified = []\<rparr>
      (mimeData [\<lparr>row = 0, column = 0, has_model = True\<rparr>]) MoveAction 3 0 QModelIndex_null
     = Inr (True,
            \<lparr>m_window = Some \<lparr>tabWidget = [Some 2, Some 3, Some 1]\<rparr>,
              m_tabs = [Some 2, Some 3, Some 1], notified = [BeginMoveRows 0 0 3, EndMoveRows]\<rparr>,
            [(0, 2)])"
    by code_simp
  then show ?thesis by simp
qed

text \<open>
  Claim C9 (amended). \<^verbatim>\<open>dropMimeData\<close> has no write of its own to the model's list:
  whatever the payload, action, row, column and parent, the model after the call is the
  model before it with the \<^verbatim>\<open>moveTab\<close> requests carried out in order, and nothing
  else. A drop that is ignored or refused makes no request and leaves the model as it
  was; so does any call that makes none. If carrying out a request never touches the
  list, the list is the same before and after; with the signal connected it is the
  handler \<open>tabMoved\<close>, called for the container's moves, that reorders it.
\<close>

theorem dropMimeData_connected_frame:
  assumes "dropMimeData_connected mv s d action r c parent = Inr (ok, s', reqs)"
  shows "requests_run mv reqs s = Inr s'
     \<and> (\<not> ok \<or> action = IgnoreAction \<longrightarrow> reqs = [] \<and> s' = s)
     \<and> (reqs = [] \<longrightarrow> m_tabs s' = m_tabs s)
     \<and> ((\<forall>s0 src dst s1. mv s0 src dst = Inr s1 \<longrightarrow> m_tabs s1 = m_tabs s0)
          \<longrightarrow> m_tabs s' = m_tabs s)"
proof -
  have run: "requests_run mv reqs s = Inr s'"
    using dropMimeData_connected_cases[OF assms] move_loop_connected_run[of mv _ r s reqs s']
    by auto
  have refused: "\<not> ok \<or> action = IgnoreAction \<longrightarrow> reqs = [] \<and> s' = s"
    using dropMimeData_connected_cases[OF assms] by auto
  have none: "reqs = [] \<longrightarrow> m_tabs s' = m_tabs s"
    using run by auto
  have quiet: "(\<forall>s0 src dst s1. mv s0 src dst = Inr s1 \<longrightarrow> m_tabs s1 = m_tabs s0)
      \<longrightarrow> m_tabs s' = m_tabs s"
    using requests_run_m_tabs[of mv reqs s s'] run by blast
  from run refused none quiet show ?thesis
    by (intro conjI)
qed

theorem dropMimeData_connected_frame_witness:
  "dropMimeData_connected moveTab_connected
      \<lparr>m_window = Some \<lparr>tabWidget = [Some 1, Some 2, Some 3]\<rparr>,
        m_tabs = [Some 1, Some 2, Some 3], notified = []\<rparr>
      (mimeData [\<lparr>row = 0, column = 0, has_model = True\<rparr>]) MoveAction 3 0 QModelIndex_null
     = Inr (True,
            \<lparr>m_window = Some \<lparr>tabWidget = [Some 2, Some 3, Some 1]\<rparr>,
              m_tabs = [Some 2, Some 3, Some 1], notified = [BeginMoveRows 0 0 3, EndMoveRows]\<rparr>,
            [(0, 2)])
   \<and> requests_run moveTab_connected [(0, 2)]
        \<lparr>m_window = Some \<lparr>tabWidget = [Some 1, Some 2, Some 3]\<rparr>,
          m_tabs = [Some 1, Some 2, Some 3], notified = []\<rparr>
     = Inr \<lparr>m_window = Some \<lparr>tabWidget = [Some 2, Some 3, Some 1]\<rparr>,
            m_tabs = [Some 2, Some 3, Some 1], notified = [BeginMoveRows 0 0 3, EndMoveRows]\<rparr>"
proof -
  let ?s = "\<lparr>m_window = Some \<lparr>tabWidget = [Some 1, Some 2, Some 3]\<rparr>,
        m_tabs = [Some 1, Some 2, Some 3], notified = []\<rparr>"
  let ?s' = "\<lparr>m_window = Some \<lparr>tabWidget = [Some 2, Some 3, Some 1]\<rparr>,
              m_tabs = [Some 2, Some 3, Some 1], notified = [BeginMoveRows 0 0 3, EndMoveRows]\<rparr>"
  have run: "dropMimeData_connected moveTab_connected ?s
      (mimeData [\<lparr>row = 0, column = 0, has_model = True\<rparr>]) MoveAction 3 0 QModelIndex_null
     = Inr (True, ?s', [(0, 2)])"
    by code_simp
  from dropMimeData_connected_frame[OF run] run show ?thesis
    by (intro conjI) simp_all
qed

text \<open>
  With the modelled container connected: a model that mirrors its window before the drop
  does not fault and mirrors it again afterwards; and the boolean, the requests and the
  container are those of \<open>dropMimeData\<close> on the container alone.
\<close>

lemma tabMoved_m_window: "tabMoved src dst s = Inr s' \<Longrightarrow> m_window s' = m_window s"
  by (auto simp: tabMoved_def notify_def Let_def split: sum.splits prod.splits)

lemma moveTab_connected_container:
  assumes "m_window s = Some w" "moveTab_connected s src dst = Inr s1"
  shows "m_window s1 = Some (TabWidget_moveTab w src dst)"
proof (cases "0 \<le> src \<and> src < tabCount w \<and> 0 \<le> dst \<and> dst < tabCount w \<and> src \<noteq> dst")
  case True
  with assms have "tabMoved src dst (s\<lparr>m_window := Some (TabWidget_moveTab w src dst)\<rparr>) = Inr s1"
    by (simp add: moveTab_connected_def)
  from tabMoved_m_window[OF this] show ?thesis by simp
next
  case False
  with assms show ?thesis
    by (auto simp: moveTab_connected_def TabWidget_moveTab_def)
qed

lemma moveTab_connected_sync:
  assumes "m_window s = Some w" "tabWidget w = m_tabs s"
  shows "\<exists>s1 w1. moveTab_connected s src dst = Inr s1 \<and> m_window s1 = Some w1
     \<and> tabWidget w1 = m_tabs s1"
proof (cases "0 \<le> src \<and> src < tabCount w \<and> 0 \<le> dst \<and> dst < tabCount w \<and> src \<noteq> dst")
  case True
  let ?s = "s\<lparr>m_window := Some (TabWidget_moveTab w src dst)\<rparr>"
  have r: "0 \<le> src" "src < int (length (m_tabs ?s))" "0 \<le> dst" "dst < int (length (m_tabs ?s))"
    using True assms(2) by (simp_all add: tabCount_def)
  show ?thesis
    using True assms tabMoved_Inr[OF r]
    by (simp add: moveTab_connected_def TabWidget_moveTab_def)
next
  case False
  with assms show ?thesis
    by (auto simp: moveTab_connected_def)
qed

lemma move_loop_connected_sync:
  assumes "m_window s = Some w" "tabWidget w = m_tabs s"
  shows "\<exists>reqs s' w'. move_loop_connected moveTab_connected ts r s = Inr (reqs, s')
     \<and> m_window s' = Some w' \<and> tabWidget w' = m_tabs s'"
  using assms
proof (induction ts arbitrary: r s w)
  case Nil
  then show ?case by simp
next
  case (Cons t ts)
  let ?src = "WebTab_tabIndex w t"
  let ?dst = "if r \<ge> ?src then r - 1 else r"
  let ?r = "if r \<ge> ?src then r else r + 1"
  from moveTab_connected_sync[OF Cons.prems, of ?src ?dst] obtain s1 w1 where
    s1: "moveTab_connected s ?src ?dst = Inr s1" "m_window s1 = Some w1" "tabWidget w1 = m_tabs s1"
    by blast
  from Cons.IH[OF s1(2,3), of ?r] obtain rest s' w' where
    "move_loop_connected moveTab_connected ts ?r s1 = Inr (rest, s')"
    "m_window s' = Some w'" "tabWidget w' = m_tabs s'"
    by blast
  with s1(1) Cons.prems(1) show ?case
    by (simp add: Let_def)
qed

lemma dropMimeData_connected_sync:
  assumes "m_window s = Some w" "tabWidget w = m_tabs s"
  shows "\<exists>ok s' reqs w'. dropMimeData_connected moveTab_connected s d action r c parent = Inr (ok, s', reqs)
     \<and> m_window s' = Some w' \<and> tabWidget w' = m_tabs s'"
proof -
  from move_loop_connected_sync[OF assms]
  obtain reqs s' w' where
    "move_loop_connected moveTab_connected (decode_loop s (QMimeData_data d MIMETYPE) []) r s = Inr (reqs, s')"
    "m_window s' = Some w'" "tabWidget w' = m_tabs s'"
    by blast
  with assms show ?thesis
    by (auto simp: dropMimeData_connected_def Let_def)
qed

lemma move_loop_connected_requests:
  assumes "m_window s = Some w" "move_loop_connected moveTab_connected ts r s = Inr (reqs, s')"
  shows "reqs = fst (move_loop TabWidget_moveTab ts r w)
     \<and> m_window s' = Some (snd (move_loop TabWidget_moveTab ts r w))"
  using assms
proof (induction ts arbitrary: r s w reqs)
  case Nil
  then show ?case by simp
next
  case (Cons t ts)
  let ?src = "WebTab_tabIndex w t"
  let ?dst = "if r \<ge> ?src then r - 1 else r"
  let ?r = "if r \<ge> ?src then r else r + 1"
  from Cons.prems obtain s1 rest where
    step: "moveTab_connected s ?src ?dst = Inr s1"
    and rest: "move_loop_connected moveTab_connected ts ?r s1 = Inr (rest, s')"
    and reqs: "reqs = (?src, ?dst) # rest"
    unfolding move_loop_connected_Cons by auto
  have w1: "m_window s1 = Some (TabWidget_moveTab w ?src ?dst)"
    by (rule moveTab_connected_container[OF Cons.prems(1) step])
  from Cons.IH[OF w1 rest] show ?case
    unfolding reqs fst_move_loop_Cons snd_move_loop_Cons by (simp add: Let_def)
qed

lemma dropMimeData_connected_requests:
  assumes "dropMimeData_connected moveTab_connected s d action r c parent = Inr (ok, s', reqs)"
  shows "dropMimeData TabWidget_moveTab s d action r c parent = (ok, s\<lparr>m_window := m_window s'\<rparr>, reqs)"
proof (cases "m_window s")
  case None
  with assms show ?thesis
    by (auto simp: dropMimeData_connected_def dropMimeData_def split: if_splits)
next
  case (Some w)
  let ?tabs = "decode_loop s (QMimeData_data d MIMETYPE) []"
  from dropMimeData_connected_cases[OF assms] show ?thesis
  proof
    assume "reqs = [] \<and> s' = s \<and> ok = (action = IgnoreAction)"
    with assms Some show ?thesis
      by (auto simp: dropMimeData_connected_def dropMimeData_def Let_def split: if_splits sum.splits)
  next
    assume a: "ok \<and> action \<noteq> IgnoreAction
      \<and> move_loop_connected moveTab_connected ?tabs r s = Inr (reqs, s')"
    then have loop: "move_loop_connected moveTab_connected ?tabs r s = Inr (reqs, s')" by simp
    from assms a have g: "hasFormat d MIMETYPE" "\<not> isValid parent" "c = 0"
      by (auto simp: dropMimeData_connected_def Let_def split: if_splits)
    have ne: "?tabs \<noteq> []"
    proof
      assume "?tabs = []"
      with loop have "reqs = []" "s' = s" by simp_all
      with assms a g Some \<open>?tabs = []\<close> show False
        by (simp add: dropMimeData_connected_def)
    qed
    from move_loop_connected_requests[OF Some loop] a g ne Some show ?thesis
      by (simp add: dropMimeData_def Let_def case_prod_beta)
  qed
qed

subsection \<open>After the window is destroyed\<close>

text \<open>
  Claim C2 (as stated, refuted). The window with one tab is destroyed; the model is then
  empty and its window pointer null. A \<^verbatim>\<open>tabInserted(0)\<close> arriving now is not a no-op: the
  handler has no test of the pointer and dereferences it.
\<close>

theorem tabInserted_after_destroyed_counterexample:
  "windowDestroyed \<lparr>m_window = Some \<lparr>tabWidget = [Some 1]\<rparr>, m_tabs = [Some 1], notified = []\<rparr>
     = \<lparr>m_window = None, m_tabs = [], notified = [BeginResetModel, EndResetModel]\<rparr>
   \<and> tabInserted 0 \<lparr>m_window = None, m_tabs = [], notified = [BeginResetModel, EndResetModel]\<rparr>
     = Inl NullDeref"
  by (simp add: windowDestroyed_def notify_def tabInserted_def)

text \<open>
  Claim C2 (amended). After the window-destroyed event the row count is 0, the list is
  empty and the window pointer is null. The null test is in \<^verbatim>\<open>dropMimeData\<close>: a drop
  arriving afterwards changes nothing, notifies nobody, requests no move, and returns
  false unless its action is the ignore action. The structural handlers have no such
  test; \<^verbatim>\<open>tabInserted\<close> with the pointer null dereferences it.
\<close>

theorem windowDestroyed_terminal:
  "rowCount (windowDestroyed s) parent = 0
   \<and> m_tabs (windowDestroyed s) = []
   \<and> m_window (windowDestroyed s) = None
   \<and> notified (windowDestroyed s) = notified s @ [BeginResetModel, EndResetModel]
   \<and> dropMimeData mv (windowDestroyed s) d action r c parent
       = (action = IgnoreAction, windowDestroyed s, [])
   \<and> tabInserted i (windowDestroyed s) = Inl NullDeref"
  by (simp add: windowDestroyed_def notify_def rowCount_def QVector_count_def dropMimeData_def
      tabInserted_def)

theorem windowDestroyed_terminal_witness:
  "rowCount (windowDestroyed \<lparr>m_window = Some \<lparr>tabWidget = [Some 1]\<rparr>, m_tabs = [Some 1], notified = []\<rparr>)
      QModelIndex_null = 0
   \<and> dropMimeData TabWidget_moveTab
        (windowDestroyed \<lparr>m_window = Some \<lparr>tabWidget = [Some 1]\<rparr>, m_tabs = [Some 1], notified = []\<rparr>)
        (mimeData [\<lparr>row = 0, column = 0, has_model = True\<rparr>]) MoveAction 0 0 QModelIndex_null
      = (False, \<lparr>m_window = None, m_tabs = [], notified = [BeginResetModel, EndResetModel]\<rparr>, [])"
  using windowDestroyed_terminal[of "\<lparr>m_window = Some \<lparr>tabWidget = [Some 1]\<rparr>, m_tabs = [Some 1], notified = []\<rparr>"
      QModelIndex_null TabWidget_moveTab "mimeData [\<lparr>row = 0, column = 0, has_model = True\<rparr>]" MoveAction 0 0 0]
  by (simp add: windowDestroyed_def notify_def)

end
